theory Spec2Isabelle
  imports Main "HOL-Library.Multiset"
begin

section \<open>The Euchre data model (euchre/model.py)\<close>

subsection \<open>Colors and suits\<close>

text \<open>
  \<^verbatim>\<open>Color\<close> and \<^verbatim>\<open>Suit\<close> are \<^verbatim>\<open>enum.IntEnum\<close> classes: closed enumerations whose
  members also behave as the integers they are assigned. Each is a datatype together
  with the function giving a member's integer value.
\<close>

datatype Color = BLACK | RED

fun Color_value :: "Color \<Rightarrow> int" where
  "Color_value BLACK = 1"
| "Color_value RED = 2"

datatype Suit = CLUBS | DIAMONDS | HEARTS | SPADES

fun Suit_value :: "Suit \<Rightarrow> int" where
  "Suit_value CLUBS = 1"
| "Suit_value DIAMONDS = 2"
| "Suit_value HEARTS = 3"
| "Suit_value SPADES = 4"

text \<open>
  Iterating over the class \<^verbatim>\<open>Suit\<close> yields its members in definition order.
\<close>

definition Suit_members :: "Suit list" where
  "Suit_members = [CLUBS, DIAMONDS, HEARTS, SPADES]"

text \<open>
  The property \<^verbatim>\<open>Suit.color\<close>:
  \<^verbatim>\<open>return Color.BLACK if self % 4 <= 1 else Color.RED\<close>.
  Python's \<^verbatim>\<open>%\<close> with a positive modulus is the floor modulus, as \<open>mod\<close> on \<open>int\<close>.
\<close>

definition color :: "Suit \<Rightarrow> Color" where
  "color self = (if Suit_value self mod 4 \<le> 1 then BLACK else RED)"

subsection \<open>Strings, pair-like arguments and exceptions\<close>

text \<open>
  A Python \<^verbatim>\<open>str\<close> is modelled by \<open>string\<close> (characters of the 8-bit range). The argument
  of \<^verbatim>\<open>Card.from_pair\<close> is a \<^verbatim>\<open>str\<close>, or a \<^verbatim>\<open>tuple\<close>/\<^verbatim>\<open>list\<close> of strings. \<open>len\<close> is
  Python's \<^verbatim>\<open>len\<close>; \<open>items\<close> is what iterating or unpacking (\<^verbatim>\<open>*card\<close>) yields: a
  \<^verbatim>\<open>str\<close> yields its one-character substrings.
\<close>

datatype iterable = PyStr string | PyTuple "string list"

fun len :: "iterable \<Rightarrow> nat" where
  "len (PyStr s) = length s"
| "len (PyTuple xs) = length xs"

fun items :: "iterable \<Rightarrow> string list" where
  "items (PyStr s) = map (\<lambda>c. [c]) s"
| "items (PyTuple xs) = xs"

text \<open>
  The two exceptions the module raises: \<^verbatim>\<open>KeyError(key)\<close> from a dictionary lookup and
  \<^verbatim>\<open>ValueError(message)\<close> from \<^verbatim>\<open>Card.from_pair\<close>.
\<close>

datatype error = KeyError string | ValueError string

text \<open>
  \<^verbatim>\<open>'{}'.format(n)\<close> for a length \<open>n\<close>: its decimal digits.
\<close>

fun str_of_nat :: "nat \<Rightarrow> string" where
  "str_of_nat n =
     (if n < 10 then [''0123456789'' ! n]
      else str_of_nat (n div 10) @ [''0123456789'' ! (n mod 10)])"

declare str_of_nat.simps [simp del]

text \<open>
  \<^verbatim>\<open>sep.join(strings)\<close>.
\<close>

fun join :: "string \<Rightarrow> string list \<Rightarrow> string" where
  "join sep [] = []"
| "join sep [x] = x"
| "join sep (x # y # ys) = x @ sep @ join sep (y # ys)"

text \<open>
  \<^verbatim>\<open>dict(pairs)\<close> inserts the pairs from left to right (a later pair overwrites an
  earlier one with the same key). A list comprehension \<^verbatim>\<open>[f(x) for x in xs]\<close> over a
  function that may raise evaluates \<open>f\<close> from left to right and stops at the first
  exception.
\<close>

definition dict :: "('k \<times> 'v) list \<Rightarrow> 'k \<rightharpoonup> 'v" where
  "dict kvs = foldl (\<lambda>m (k, v). m(k \<mapsto> v)) Map.empty kvs"

fun comprehension :: "('a \<Rightarrow> error + 'b) \<Rightarrow> 'a list \<Rightarrow> error + 'b list" where
  "comprehension f [] = Inr []"
| "comprehension f (x # xs) =
     (case f x of
        Inl e \<Rightarrow> Inl e
      | Inr y \<Rightarrow> (case comprehension f xs of Inl e \<Rightarrow> Inl e | Inr ys \<Rightarrow> Inr (y # ys)))"

text \<open>
  \<^verbatim>\<open>itertools.product(a, b)\<close>: the 2-tuples of the cross product, the rightmost
  argument advancing fastest.
\<close>

definition itertools_product :: "iterable \<Rightarrow> iterable \<Rightarrow> iterable list" where
  "itertools_product a b = concat (map (\<lambda>x. map (\<lambda>y. PyTuple [x, y]) (items b)) (items a))"

subsection \<open>Symbol tables\<close>

definition RANKS_STR :: string where
  "RANKS_STR = ''9TJQKA''"

text \<open>\<^verbatim>\<open>RANKS = dict(zip(RANKS_STR, range(9, 15)))\<close>\<close>

definition RANKS :: "string \<rightharpoonup> int" where
  "RANKS = dict (zip (items (PyStr RANKS_STR)) [9..14])"

definition SUITS_STR :: string where
  "SUITS_STR = ''CDHS''"

text \<open>\<^verbatim>\<open>SUITS = dict(zip(SUITS_STR, Suit))\<close>\<close>

definition SUITS :: "string \<rightharpoonup> Suit" where
  "SUITS = dict (zip (items (PyStr SUITS_STR)) Suit_members)"

subsection \<open>Cards\<close>

text \<open>
  A \<^verbatim>\<open>Card\<close> object has the attributes \<^verbatim>\<open>_rank\<close>, \<^verbatim>\<open>_suit\<close> and \<^verbatim>\<open>_str\<close>, read through
  the properties \<^verbatim>\<open>rank\<close> and \<^verbatim>\<open>suit\<close> and through \<^verbatim>\<open>__str__\<close>.
\<close>

record Card =
  rank :: int
  suit :: Suit
  str :: string

text \<open>
  \<^verbatim>\<open>Card.__init__(self, rank, suit)\<close>: the rank is looked up first, then the suit; a
  missing key raises \<^verbatim>\<open>KeyError\<close>. \<^verbatim>\<open>'{}{}'.format(rank, suit)\<close> concatenates the two
  strings.
\<close>

definition Card_init :: "string \<Rightarrow> string \<Rightarrow> error + Card" where
  "Card_init r s =
     (case RANKS r of
        None \<Rightarrow> Inl (KeyError r)
      | Some rk \<Rightarrow>
          (case SUITS s of
             None \<Rightarrow> Inl (KeyError s)
           | Some su \<Rightarrow> Inr \<lparr>rank = rk, suit = su, str = r @ s\<rparr>))"

text \<open>
  \<^verbatim>\<open>Card.from_pair(cls, card)\<close>.
\<close>

definition from_pair :: "iterable \<Rightarrow> error + Card" where
  "from_pair crd =
     (if len crd \<noteq> 2
      then Inl (ValueError (''Expects card to be two items; got '' @ str_of_nat (len crd)))
      else Card_init (items crd ! 0) (items crd ! 1))"

subsection \<open>The store of list objects\<close>

text \<open>
  Python lists are mutable objects reached through references: \<^verbatim>\<open>random.shuffle\<close>
  changes its argument in place, and \<^verbatim>\<open>Deck.__init__\<close> keeps the reference it is given.
  The store holds the list objects; an address is an index into it, and a new object
  goes at the end.
\<close>

type_synonym addr = nat

type_synonym heap = "Card list list"

definition lookup :: "heap \<Rightarrow> addr \<Rightarrow> Card list option" where
  "lookup h a = (if a < length h then Some (h ! a) else None)"

definition alloc :: "heap \<Rightarrow> Card list \<Rightarrow> addr \<times> heap" where
  "alloc h xs = (length h, h @ [xs])"

text \<open>\<^verbatim>\<open>list.copy()\<close>: a new list object with the same items.\<close>

definition list_copy :: "heap \<Rightarrow> addr \<Rightarrow> (addr \<times> heap) option" where
  "list_copy h a = (case lookup h a of None \<Rightarrow> None | Some xs \<Rightarrow> Some (alloc h xs))"

subsection \<open>The deck catalog\<close>

text \<open>
  \<^verbatim>\<open>DECK_CARDS = [Card.from_pair(card) for card in itertools.product(RANKS_STR, SUITS_STR)]\<close>
  is evaluated when the module is imported (\<open>Inl\<close>: the import raises). The list object it
  builds is the first one the module allocates.
\<close>

definition DECK_CARDS :: "error + Card list" where
  "DECK_CARDS = comprehension from_pair (itertools_product (PyStr RANKS_STR) (PyStr SUITS_STR))"

definition DECK_CARDS_ref :: addr where
  "DECK_CARDS_ref = 0"

definition module_heap :: "error + heap" where
  "module_heap = (case DECK_CARDS of Inl e \<Rightarrow> Inl e | Inr cs \<Rightarrow> Inr (snd (alloc [] cs)))"

subsection \<open>Shuffling\<close>

text \<open>
  \<^verbatim>\<open>random.shuffle\<close> belongs to Python's standard library:
  \<^verbatim>\<open>
  for i in reversed(range(1, len(x))):
      j = randbelow(i + 1)
      x[i], x[j] = x[j], x[i]
  \<close>
  The generator is the sequence of numbers it is still to draw, so that every outcome
  of the shuffle is the outcome for some generator; \<open>randbelow n\<close> draws a number below
  \<open>n\<close>.
\<close>

type_synonym rng = "nat \<Rightarrow> nat"

definition randbelow :: "nat \<Rightarrow> rng \<Rightarrow> nat \<times> rng" where
  "randbelow n g = (g 0 mod n, \<lambda>k. g (Suc k))"

fun shuffle_loop :: "nat \<Rightarrow> heap \<Rightarrow> addr \<Rightarrow> rng \<Rightarrow> heap \<times> rng" where
  "shuffle_loop 0 h x g = (h, g)"
| "shuffle_loop (Suc k) h x g =
     (let i = Suc k;
          (j, g') = randbelow (i + 1) g;
          xs = h ! x
      in shuffle_loop k (h[x := xs[i := xs ! j, j := xs ! i]]) x g')"

definition random_shuffle :: "heap \<Rightarrow> addr \<Rightarrow> rng \<Rightarrow> (heap \<times> rng) option" where
  "random_shuffle h x g =
     (case lookup h x of
        None \<Rightarrow> None
      | Some xs \<Rightarrow> Some (shuffle_loop (length xs - 1) h x g))"

subsection \<open>Decks and hands\<close>

record Deck =
  Deck_cards :: addr

definition Deck_init :: "addr \<Rightarrow> Deck" where
  "Deck_init cards = \<lparr>Deck_cards = cards\<rparr>"

text \<open>
  \<^verbatim>\<open>Deck.new(cls)\<close>:
  \<^verbatim>\<open>cards = DECK_CARDS.copy(); random.shuffle(cards); return cls(cards)\<close>.
\<close>

definition Deck_new :: "heap \<Rightarrow> rng \<Rightarrow> (Deck \<times> heap \<times> rng) option" where
  "Deck_new h g =
     (case list_copy h DECK_CARDS_ref of
        None \<Rightarrow> None
      | Some (cards, h1) \<Rightarrow>
          (case random_shuffle h1 cards g of
             None \<Rightarrow> None
           | Some (h2, g') \<Rightarrow> Some (Deck_init cards, h2, g')))"

text \<open>
  \<^verbatim>\<open>Deck.__str__\<close>: \<^verbatim>\<open>', '.join(str(card) for card in self.cards)\<close>.
\<close>

definition Deck_str :: "heap \<Rightarrow> Deck \<Rightarrow> string option" where
  "Deck_str h self = map_option (\<lambda>cs. join '', '' (map str cs)) (lookup h (Deck_cards self))"

record Hand =
  Hand_cards :: addr

definition Hand_init :: "addr \<Rightarrow> Hand" where
  "Hand_init cards = \<lparr>Hand_cards = cards\<rparr>"

text \<open>
  \<^verbatim>\<open>Hand.from_str(cls, cards)\<close>:
  \<^verbatim>\<open>cards = [Card.from_pair(card) for card in cards]; return cls(cards)\<close>.
\<close>

definition Hand_from_str :: "heap \<Rightarrow> iterable list \<Rightarrow> error + (Hand \<times> heap)" where
  "Hand_from_str h cards =
     (case comprehension from_pair cards of
        Inl e \<Rightarrow> Inl e
      | Inr cs \<Rightarrow> (let (a, h') = alloc h cs in Inr (Hand_init a, h')))"

definition Hand_str :: "heap \<Rightarrow> Hand \<Rightarrow> string option" where
  "Hand_str h self = map_option (\<lambda>cs. join '', '' (map str cs)) (lookup h (Hand_cards self))"

subsection \<open>The catalog order of the specification\<close>

text \<open>
  The enumeration the specification describes, written from its words, to be compared
  with \<open>DECK_CARDS\<close>: ranks in the outer loop in the order 9, T, J, Q, K, A (numeric
  ranks 9 to 14), suits in the inner loop in the order C, D, H, S (clubs, diamonds,
  hearts, spades); the text of a card is its rank token followed by its suit token.
\<close>

definition rank_major_catalog :: "Card list" where
  "rank_major_catalog =
     concat (map (\<lambda>(r, n). map (\<lambda>(s, su). \<lparr>rank = n, suit = su, str = [r, s]\<rparr>)
                   [(CHR ''C'', CLUBS), (CHR ''D'', DIAMONDS), (CHR ''H'', HEARTS), (CHR ''S'', SPADES)])
        [(CHR ''9'', 9), (CHR ''T'', 10), (CHR ''J'', 11), (CHR ''Q'', 12), (CHR ''K'', 13), (CHR ''A'', 14)])"

section \<open>Properties\<close>

subsection \<open>Suit colors\<close>

text \<open>
  Claim C1 says that clubs and diamonds (codes 1 and 2) are black and hearts and spades
  (codes 3 and 4) are red. The code does not do that: diamonds (2 mod 4 = 2) are red and
  spades (4 mod 4 = 0) are black.
\<close>

theorem color_DIAMONDS_SPADES_counterexample:
  "color DIAMONDS \<noteq> BLACK \<and> color SPADES \<noteq> RED"
  by (simp add: color_def)

text \<open>
  Claim C1, amended: the suit-to-color function maps clubs to black, diamonds to red,
  hearts to red and spades to black (codes 1 and 4 black, codes 2 and 3 red), which
  covers every suit of the closed enumeration.
\<close>

theorem color_table:
  "color CLUBS = BLACK \<and> color DIAMONDS = RED \<and> color HEARTS = RED \<and> color SPADES = BLACK"
  by (simp add: color_def)

text \<open>
  Claim C2: for every suit, the color is black exactly when the suit's integer code
  modulo 4 is at most 1, and red otherwise.
\<close>

theorem color_modulo_formula:
  "(color s = BLACK) = (Suit_value s mod 4 \<le> 1) \<and> (color s = RED) = (\<not> Suit_value s mod 4 \<le> 1)"
  by (simp add: color_def)

subsection \<open>Symbol tables and the catalog\<close>

lemma RANKS_eq:
  "RANKS = [''9'' \<mapsto> 9, ''T'' \<mapsto> 10, ''J'' \<mapsto> 11, ''Q'' \<mapsto> 12, ''K'' \<mapsto> 13, ''A'' \<mapsto> 14]"
  by (simp add: RANKS_def RANKS_STR_def dict_def upto.simps)

lemma SUITS_eq:
  "SUITS = [''C'' \<mapsto> CLUBS, ''D'' \<mapsto> DIAMONDS, ''H'' \<mapsto> HEARTS, ''S'' \<mapsto> SPADES]"
  by (simp add: SUITS_def SUITS_STR_def dict_def Suit_members_def)

lemma DECK_CARDS_eq: "DECK_CARDS = Inr rank_major_catalog"
  by (simp add: DECK_CARDS_def itertools_product_def RANKS_STR_def SUITS_STR_def
      from_pair_def Card_init_def RANKS_eq SUITS_eq rank_major_catalog_def)

lemma length_catalog: "length rank_major_catalog = 24"
  by (simp add: rank_major_catalog_def)

lemma distinct_catalog: "distinct (map (\<lambda>c. (rank c, suit c)) rank_major_catalog)"
  by (simp add: rank_major_catalog_def)

text \<open>
  Claim C3: building the deck catalog succeeds, and the catalog has exactly 24 cards,
  pairwise distinct by (rank, suit), in rank-major, suit-minor order: ranks in the outer
  loop in the order of "9TJQKA", suits in the inner loop in the order of "CDHS".
\<close>

theorem DECK_CARDS_catalog:
  "DECK_CARDS = Inr rank_major_catalog
   \<and> length rank_major_catalog = 24
   \<and> distinct (map (\<lambda>c. (rank c, suit c)) rank_major_catalog)
   \<and> map str rank_major_catalog =
       [''9C'', ''9D'', ''9H'', ''9S'', ''TC'', ''TD'', ''TH'', ''TS'',
        ''JC'', ''JD'', ''JH'', ''JS'', ''QC'', ''QD'', ''QH'', ''QS'',
        ''KC'', ''KD'', ''KH'', ''KS'', ''AC'', ''AD'', ''AH'', ''AS'']
   \<and> map rank rank_major_catalog =
       [9, 9, 9, 9, 10, 10, 10, 10, 11, 11, 11, 11, 12, 12, 12, 12, 13, 13, 13, 13, 14, 14, 14, 14]
   \<and> map suit rank_major_catalog =
       concat (replicate 6 [CLUBS, DIAMONDS, HEARTS, SPADES])"
proof -
  have "map str rank_major_catalog =
       [''9C'', ''9D'', ''9H'', ''9S'', ''TC'', ''TD'', ''TH'', ''TS'',
        ''JC'', ''JD'', ''JH'', ''JS'', ''QC'', ''QD'', ''QH'', ''QS'',
        ''KC'', ''KD'', ''KH'', ''KS'', ''AC'', ''AD'', ''AH'', ''AS'']"
    by (simp add: rank_major_catalog_def)
  moreover have "map rank rank_major_catalog =
       [9, 9, 9, 9, 10, 10, 10, 10, 11, 11, 11, 11, 12, 12, 12, 12, 13, 13, 13, 13, 14, 14, 14, 14]"
    by (simp add: rank_major_catalog_def)
  moreover have "map suit rank_major_catalog = concat (replicate 6 [CLUBS, DIAMONDS, HEARTS, SPADES])"
    by (simp add: rank_major_catalog_def eval_nat_numeral)
  ultimately show ?thesis
    using DECK_CARDS_eq length_catalog distinct_catalog by simp
qed

subsection \<open>Constructing cards\<close>

lemma lt6: "i < 6 \<Longrightarrow> i = 0 \<or> i = 1 \<or> i = 2 \<or> i = 3 \<or> i = 4 \<or> i = (5::nat)"
  by arith

lemma lt4: "j < 4 \<Longrightarrow> j = 0 \<or> j = 1 \<or> j = 2 \<or> j = (3::nat)"
  by arith

lemma RANKS_nth: "i < 6 \<Longrightarrow> RANKS [''9TJQKA'' ! i] = Some (9 + int i)"
  by (auto dest!: lt6 simp: RANKS_eq)

lemma SUITS_nth: "j < 4 \<Longrightarrow> SUITS [''CDHS'' ! j] = Some ([CLUBS, DIAMONDS, HEARTS, SPADES] ! j)"
  by (auto dest!: lt4 simp: SUITS_eq)

text \<open>
  Claim C5: for the rank token at position \<open>i\<close> of "9TJQKA" and the suit token at
  position \<open>j\<close> of "CDHS", constructing the card succeeds; its rank is \<open>9 + i\<close> (so 9, T,
  J, Q, K, A have the ranks 9 to 14), its suit is the \<open>j\<close>-th of clubs, diamonds, hearts,
  spades, and its text is the rank token followed by the suit token.
\<close>

theorem Card_init_tokens:
  assumes "i < length RANKS_STR" and "j < length SUITS_STR"
  shows "Card_init [RANKS_STR ! i] [SUITS_STR ! j] =
           Inr \<lparr>rank = 9 + int i, suit = [CLUBS, DIAMONDS, HEARTS, SPADES] ! j,
                str = [RANKS_STR ! i] @ [SUITS_STR ! j]\<rparr>
         \<and> RANKS_STR = ''9TJQKA'' \<and> SUITS_STR = ''CDHS''
         \<and> map RANKS [''9'', ''T'', ''J'', ''Q'', ''K'', ''A''] = map Some [9, 10, 11, 12, 13, 14]
         \<and> map SUITS [''C'', ''D'', ''H'', ''S''] = map Some [CLUBS, DIAMONDS, HEARTS, SPADES]"
proof -
  from assms have "i < 6" and "j < 4"
    by (simp_all add: RANKS_STR_def SUITS_STR_def)
  then have "Card_init [''9TJQKA'' ! i] [''CDHS'' ! j] =
           Inr \<lparr>rank = 9 + int i, suit = [CLUBS, DIAMONDS, HEARTS, SPADES] ! j,
                str = [''9TJQKA'' ! i] @ [''CDHS'' ! j]\<rparr>"
    by (simp add: Card_init_def RANKS_nth SUITS_nth)
  moreover have "map RANKS [''9'', ''T'', ''J'', ''Q'', ''K'', ''A''] = map Some [9, 10, 11, 12, 13, 14]"
    by (simp add: RANKS_eq)
  moreover have "map SUITS [''C'', ''D'', ''H'', ''S''] = map Some [CLUBS, DIAMONDS, HEARTS, SPADES]"
    by (simp add: SUITS_eq)
  ultimately show ?thesis
    by (simp add: RANKS_STR_def SUITS_STR_def)
qed

theorem Card_init_tokens_witness:
  "2 < length RANKS_STR \<and> 3 < length SUITS_STR
   \<and> Card_init ''J'' ''S'' = Inr \<lparr>rank = 11, suit = SPADES, str = ''JS''\<rparr>"
proof -
  have a: "2 < length RANKS_STR" and b: "3 < length SUITS_STR"
    by (simp_all add: RANKS_STR_def SUITS_STR_def)
  from Card_init_tokens [OF a b] show ?thesis
    by (simp add: RANKS_STR_def SUITS_STR_def)
qed

lemma dom_RANKS: "dom RANKS = {''9'', ''T'', ''J'', ''Q'', ''K'', ''A''}"
  by (auto simp: RANKS_eq split: if_splits)

lemma dom_SUITS: "dom SUITS = {''C'', ''D'', ''H'', ''S''}"
  by (auto simp: SUITS_eq split: if_splits)

lemma Card_init_cases:
  "Card_init r s =
     (if r \<notin> dom RANKS then Inl (KeyError r)
      else if s \<notin> dom SUITS then Inl (KeyError s)
      else Inr \<lparr>rank = the (RANKS r), suit = the (SUITS s), str = r @ s\<rparr>)"
  by (auto simp: Card_init_def domIff split: option.splits)

text \<open>
  Claim C6: constructing a card fails with the invalid-token condition (\<open>KeyError\<close>)
  if and only if at least one of the two tokens is absent from its symbol table, and it
  succeeds otherwise; it never fails in another way. The tokens of the tables are 9, T, J,
  Q, K, A and C, D, H, S. In particular ('9','C') succeeds, and ('9','Z') and ('X','C')
  fail with the invalid-token condition.
\<close>

theorem Card_init_invalid_token:
  "(\<exists>k. Card_init r s = Inl (KeyError k)) = (\<not> (r \<in> dom RANKS \<and> s \<in> dom SUITS))
   \<and> (\<exists>c. Card_init r s = Inr c) = (r \<in> dom RANKS \<and> s \<in> dom SUITS)
   \<and> (\<forall>m. Card_init r s \<noteq> Inl (ValueError m))
   \<and> dom RANKS = {''9'', ''T'', ''J'', ''Q'', ''K'', ''A''}
   \<and> dom SUITS = {''C'', ''D'', ''H'', ''S''}
   \<and> Card_init ''9'' ''C'' = Inr \<lparr>rank = 9, suit = CLUBS, str = ''9C''\<rparr>
   \<and> Card_init ''9'' ''Z'' = Inl (KeyError ''Z'')
   \<and> Card_init ''X'' ''C'' = Inl (KeyError ''X'')"
proof -
  have "Card_init ''9'' ''C'' = Inr \<lparr>rank = 9, suit = CLUBS, str = ''9C''\<rparr>"
    by (simp add: Card_init_def RANKS_eq SUITS_eq)
  moreover have "Card_init ''9'' ''Z'' = Inl (KeyError ''Z'')"
    by (simp add: Card_init_def RANKS_eq SUITS_eq)
  moreover have "Card_init ''X'' ''C'' = Inl (KeyError ''X'')"
    by (simp add: Card_init_def RANKS_eq SUITS_eq)
  moreover have "(\<exists>k. Card_init r s = Inl (KeyError k)) = (\<not> (r \<in> dom RANKS \<and> s \<in> dom SUITS))"
    by (auto simp: Card_init_cases)
  moreover have "(\<exists>c. Card_init r s = Inr c) = (r \<in> dom RANKS \<and> s \<in> dom SUITS)"
    by (auto simp: Card_init_cases)
  moreover have "\<forall>m. Card_init r s \<noteq> Inl (ValueError m)"
    by (auto simp: Card_init_cases)
  ultimately show ?thesis
    using dom_RANKS dom_SUITS by blast
qed

lemma items_len: "length (items p) = len p"
  by (cases p) simp_all

lemma str_of_nat_nonempty: "str_of_nat n \<noteq> []"
  by (subst str_of_nat.simps) simp

lemma digit_inj:
  assumes "a < 10" and "b < 10" and "''0123456789'' ! a = ''0123456789'' ! b"
  shows "a = b"
proof -
  have "distinct ''0123456789''"
    by simp
  with assms show ?thesis
    by (simp add: nth_eq_iff_index_eq)
qed

text \<open>The decimal text of a length determines the length.\<close>

lemma str_of_nat_inj: "str_of_nat m = str_of_nat n \<Longrightarrow> m = n"
proof (induction m arbitrary: n rule: str_of_nat.induct)
  case (1 m)
  show ?case
  proof (cases "m < 10")
    case True
    then have m: "str_of_nat m = [''0123456789'' ! m]"
      by (subst str_of_nat.simps) simp
    show ?thesis
    proof (cases "n < 10")
      case n: True
      then have "str_of_nat n = [''0123456789'' ! n]"
        by (subst str_of_nat.simps) simp
      with m "1.prems" True n show ?thesis
        by (simp add: digit_inj)
    next
      case False
      then have "str_of_nat n = str_of_nat (n div 10) @ [''0123456789'' ! (n mod 10)]"
        by (subst str_of_nat.simps) simp
      with m "1.prems" str_of_nat_nonempty [of "n div 10"] show ?thesis
        by simp
    qed
  next
    case False
    then have m: "str_of_nat m = str_of_nat (m div 10) @ [''0123456789'' ! (m mod 10)]"
      by (subst str_of_nat.simps) simp
    show ?thesis
    proof (cases "n < 10")
      case True
      then have "str_of_nat n = [''0123456789'' ! n]"
        by (subst str_of_nat.simps) simp
      with m "1.prems" str_of_nat_nonempty [of "m div 10"] show ?thesis
        by simp
    next
      case n: False
      then have "str_of_nat n = str_of_nat (n div 10) @ [''0123456789'' ! (n mod 10)]"
        by (subst str_of_nat.simps) simp
      with m "1.prems" have "str_of_nat (m div 10) = str_of_nat (n div 10)"
        and d: "''0123456789'' ! (m mod 10) = ''0123456789'' ! (n mod 10)"
        by simp_all
      then have "m div 10 = n div 10"
        using "1.IH" [OF False] by simp
      moreover have "m mod 10 = n mod 10"
        using d by (simp add: digit_inj)
      ultimately show ?thesis
        by (metis div_mult_mod_eq)
    qed
  qed
qed

text \<open>
  Claim C7: building a card from a pair fails with the length-mismatch condition
  (\<open>ValueError\<close>) whenever the input does not have exactly 2 elements, and the message
  ends with the decimal length of the input ("AHC" fails with "... got 3"), so that only
  an input of the same length fails in the same way; an input of
  exactly two elements \<open>r\<close>, \<open>s\<close> is handed to the card constructor with \<open>r\<close> as rank
  token and \<open>s\<close> as suit token, so "AH" succeeds and gives the card of ('A','H').
\<close>

theorem from_pair_arity:
  "(len p \<noteq> 2 \<longrightarrow>
      from_pair p = Inl (ValueError (''Expects card to be two items; got '' @ str_of_nat (len p))))
   \<and> (len p \<noteq> 2 \<and> from_pair q = from_pair p \<longrightarrow> len q = len p)
   \<and> (len p = 2 \<longrightarrow> (\<exists>r s. items p = [r, s] \<and> from_pair p = Card_init r s))
   \<and> from_pair (PyStr ''AH'') = Card_init ''A'' ''H''
   \<and> from_pair (PyTuple [''A'', ''H'']) = Card_init ''A'' ''H''
   \<and> Card_init ''A'' ''H'' = Inr \<lparr>rank = 14, suit = HEARTS, str = ''AH''\<rparr>
   \<and> from_pair (PyStr ''AHC'') = Inl (ValueError ''Expects card to be two items; got 3'')"
proof -
  have a: "len p \<noteq> 2 \<longrightarrow>
      from_pair p = Inl (ValueError (''Expects card to be two items; got '' @ str_of_nat (len p)))"
    by (simp add: from_pair_def)
  have a': "len q = len p" if "len p \<noteq> 2" "from_pair q = from_pair p"
  proof (cases "len q = 2")
    case True
    with that a show ?thesis
      by (auto simp: from_pair_def [of q] Card_init_cases split: if_splits)
  next
    case False
    with that a have "str_of_nat (len q) = str_of_nat (len p)"
      by (simp add: from_pair_def [of q])
    then show ?thesis
      by (rule str_of_nat_inj)
  qed
  have b: "from_pair p = Card_init r s" if "items p = [r, s]" for r s
    using items_len [of p] that by (auto simp: from_pair_def)
  have "\<exists>r s. items p = [r, s]" if "len p = 2"
    using items_len [of p] that by (auto simp: length_Suc_conv eval_nat_numeral)
  with b have c: "len p = 2 \<longrightarrow> (\<exists>r s. items p = [r, s] \<and> from_pair p = Card_init r s)"
    by blast
  have d: "from_pair (PyStr ''AH'') = Card_init ''A'' ''H''"
    by (simp add: from_pair_def)
  have e: "from_pair (PyTuple [''A'', ''H'']) = Card_init ''A'' ''H''"
    by (simp add: from_pair_def)
  have f: "Card_init ''A'' ''H'' = Inr \<lparr>rank = 14, suit = HEARTS, str = ''AH''\<rparr>"
    by (simp add: Card_init_def RANKS_eq SUITS_eq)
  have g: "from_pair (PyStr ''AHC'') = Inl (ValueError ''Expects card to be two items; got 3'')"
    by (simp add: from_pair_def str_of_nat.simps)
  from a a' c d e f g show ?thesis by blast
qed

theorem from_pair_arity_witness:
  "len (PyTuple [''9'', ''C'', ''D'', ''H'']) \<noteq> 2
   \<and> from_pair (PyTuple [''9'', ''C'', ''D'', ''H'']) =
       Inl (ValueError ''Expects card to be two items; got 4'')
   \<and> from_pair (PyStr ''KING'') = from_pair (PyTuple [''9'', ''C'', ''D'', ''H''])
   \<and> len (PyStr ''KING'') = len (PyTuple [''9'', ''C'', ''D'', ''H''])
   \<and> len (PyStr ''QZ'') = 2
   \<and> from_pair (PyStr ''QZ'') = Card_init ''Q'' ''Z''"
proof -
  have a: "len (PyTuple [''9'', ''C'', ''D'', ''H'']) \<noteq> 2" and b: "len (PyStr ''QZ'') = 2"
    by simp_all
  have c: "from_pair (PyStr ''KING'') = from_pair (PyTuple [''9'', ''C'', ''D'', ''H''])"
    by (simp add: from_pair_def)
  from a from_pair_arity [of "PyTuple [''9'', ''C'', ''D'', ''H'']"]
  have "from_pair (PyTuple [''9'', ''C'', ''D'', ''H'']) =
       Inl (ValueError ''Expects card to be two items; got 4'')"
    by (simp add: str_of_nat.simps)
  moreover from a c from_pair_arity [of "PyTuple [''9'', ''C'', ''D'', ''H'']" "PyStr ''KING''"]
  have "len (PyStr ''KING'') = len (PyTuple [''9'', ''C'', ''D'', ''H''])"
    by blast
  moreover from b from_pair_arity [of "PyStr ''QZ''"]
  have "from_pair (PyStr ''QZ'') = Card_init ''Q'' ''Z''"
    by auto
  ultimately show ?thesis
    using a b c by blast
qed

subsection \<open>Shuffling a copy of the catalog\<close>

lemma shuffle_loop_inv:
  assumes "x < length h" and "k \<le> length (h ! x) - 1"
  shows "length (fst (shuffle_loop k h x g)) = length h
       \<and> mset (fst (shuffle_loop k h x g) ! x) = mset (h ! x)
       \<and> (\<forall>a. a \<noteq> x \<longrightarrow> fst (shuffle_loop k h x g) ! a = h ! a)"
  using assms
proof (induction k arbitrary: h g)
  case 0
  then show ?case by simp
next
  case (Suc k)
  define xs where "xs = h ! x"
  define j where "j = g 0 mod (Suc k + 1)"
  define xs' where "xs' = xs[Suc k := xs ! j, j := xs ! Suc k]"
  define h' where "h' = h[x := xs']"
  have i: "Suc k < length xs"
    using Suc.prems(2) by (simp add: xs_def)
  have "j < Suc k + 1"
    by (simp add: j_def)
  with i have j: "j < length xs"
    by arith
  have m: "mset xs' = mset xs"
    unfolding xs'_def using mset_swap [OF j i] .
  have l: "length xs' = length xs"
    by (simp add: xs'_def)
  have step: "shuffle_loop (Suc k) h x g = shuffle_loop k h' x (\<lambda>n. g (Suc n))"
    by (simp add: randbelow_def Let_def h'_def xs'_def xs_def j_def)
  have hx: "h' ! x = xs'"
    using Suc.prems(1) by (simp add: h'_def)
  have "x < length h'"
    using Suc.prems(1) by (simp add: h'_def)
  moreover have "k \<le> length (h' ! x) - 1"
    using i by (simp add: hx l)
  ultimately have IH:
    "length (fst (shuffle_loop k h' x (\<lambda>n. g (Suc n)))) = length h'
     \<and> mset (fst (shuffle_loop k h' x (\<lambda>n. g (Suc n))) ! x) = mset (h' ! x)
     \<and> (\<forall>a. a \<noteq> x \<longrightarrow> fst (shuffle_loop k h' x (\<lambda>n. g (Suc n))) ! a = h' ! a)"
    by (rule Suc.IH)
  have "\<forall>a. a \<noteq> x \<longrightarrow> h' ! a = h ! a"
    by (simp add: h'_def)
  moreover have "mset (h' ! x) = mset (h ! x)"
    by (simp add: hx m xs_def)
  moreover have "length h' = length h"
    by (simp add: h'_def)
  ultimately show ?case
    unfolding step using IH by simp
qed

lemma Deck_new_frame:
  assumes "lookup h DECK_CARDS_ref = Some cat"
  shows "\<exists>d h' g' ys. Deck_new h g = Some (d, h', g')
           \<and> lookup h' (Deck_cards d) = Some ys \<and> mset ys = mset cat
           \<and> Deck_cards d = length h \<and> length h' = Suc (length h) \<and> take (length h) h' = h"
proof -
  define h1 where "h1 = h @ [cat]"
  define r where "r = shuffle_loop (length cat - 1) h1 (length h) g"
  have c: "list_copy h DECK_CARDS_ref = Some (length h, h1)"
    using assms by (simp add: list_copy_def alloc_def h1_def)
  have l1: "lookup h1 (length h) = Some cat"
    by (simp add: lookup_def h1_def)
  have s: "random_shuffle h1 (length h) g = Some r"
    by (simp add: random_shuffle_def l1 r_def)
  have n: "Deck_new h g = Some (Deck_init (length h), fst r, snd r)"
    by (simp add: Deck_new_def c s)
  have "length h < length h1" and "length cat - 1 \<le> length (h1 ! length h) - 1"
    by (simp_all add: h1_def)
  from shuffle_loop_inv [OF this, of g]
  have len: "length (fst r) = length h1"
    and ms: "mset (fst r ! length h) = mset (h1 ! length h)"
    and fr: "\<And>a. a \<noteq> length h \<Longrightarrow> fst r ! a = h1 ! a"
    by (simp_all add: r_def)
  have "take (length h) (fst r) = h"
  proof (rule nth_equalityI)
    show "length (take (length h) (fst r)) = length h"
      by (simp add: len h1_def)
  next
    fix a
    assume "a < length (take (length h) (fst r))"
    then have a: "a < length h"
      by simp
    then show "take (length h) (fst r) ! a = h ! a"
      using fr [of a] by (simp add: h1_def nth_append)
  qed
  moreover have "lookup (fst r) (length h) = Some (fst r ! length h)"
    by (simp add: lookup_def len h1_def)
  moreover have "mset (fst r ! length h) = mset cat"
    using ms by (simp add: h1_def)
  moreover have "length (fst r) = Suc (length h)"
    by (simp add: len h1_def)
  ultimately show ?thesis
    using n
    by (intro exI [of _ "Deck_init (length h)"] exI [of _ "fst r"] exI [of _ "snd r"]
        exI [of _ "fst r ! length h"]) (simp add: Deck_init_def)
qed

lemma lookup_take:
  assumes "take (length h) h' = h" and "lookup h a = Some xs"
  shows "lookup h' a = Some xs"
proof -
  from assms(2) have a: "a < length h" and x: "h ! a = xs"
    by (auto simp: lookup_def split: if_splits)
  from assms(1) have "length h \<le> length h'"
    by (metis length_take min.cobounded1)
  moreover have "h' ! a = take (length h) h' ! a"
    using a by simp
  ultimately show ?thesis
    using a x assms(1) by (simp add: lookup_def)
qed

text \<open>
  Claim C4: in every state of the store in which the catalog is intact, and for every
  generator (every outcome of the shuffle), \<open>Deck.new\<close> returns a deck whose cards are a
  permutation of the catalog; every list object that existed before the call, the
  catalog among them, is unchanged. Hence a second call again yields a permutation of
  the catalog, and both decks hold 24 cards, distinct by (rank, suit).
\<close>

theorem Deck_new_permutation:
  assumes "DECK_CARDS = Inr cat" and "lookup h DECK_CARDS_ref = Some cat"
  shows "\<exists>d1 h1 g1 ys1 d2 h2 g2 ys2.
      Deck_new h g = Some (d1, h1, g1)
    \<and> lookup h1 (Deck_cards d1) = Some ys1 \<and> mset ys1 = mset cat
    \<and> lookup h1 DECK_CARDS_ref = Some cat \<and> take (length h) h1 = h
    \<and> Deck_new h1 g1 = Some (d2, h2, g2)
    \<and> lookup h2 (Deck_cards d2) = Some ys2 \<and> mset ys2 = mset cat
    \<and> lookup h2 DECK_CARDS_ref = Some cat \<and> take (length h1) h2 = h1
    \<and> lookup h2 (Deck_cards d1) = Some ys1
    \<and> length ys1 = 24 \<and> distinct (map (\<lambda>c. (rank c, suit c)) ys1)
    \<and> length ys2 = 24 \<and> distinct (map (\<lambda>c. (rank c, suit c)) ys2)"
proof -
  from Deck_new_frame [OF assms(2), of g] obtain d1 h1 g1 ys1 where
    1: "Deck_new h g = Some (d1, h1, g1)" "lookup h1 (Deck_cards d1) = Some ys1"
       "mset ys1 = mset cat" "take (length h) h1 = h"
    by blast
  have c1: "lookup h1 DECK_CARDS_ref = Some cat"
    using lookup_take [OF 1(4) assms(2)] .
  from Deck_new_frame [OF c1, of g1] obtain d2 h2 g2 ys2 where
    2: "Deck_new h1 g1 = Some (d2, h2, g2)" "lookup h2 (Deck_cards d2) = Some ys2"
       "mset ys2 = mset cat" "take (length h1) h2 = h1"
    by blast
  have c2: "lookup h2 DECK_CARDS_ref = Some cat"
    using lookup_take [OF 2(4) c1] .
  have k: "lookup h2 (Deck_cards d1) = Some ys1"
    using lookup_take [OF 2(4) 1(2)] .
  have cat: "cat = rank_major_catalog"
    using assms(1) by (simp add: DECK_CARDS_eq)
  have perm: "length ys = 24 \<and> distinct (map (\<lambda>c. (rank c, suit c)) ys)" if "mset ys = mset cat" for ys
  proof -
    have "length ys = length cat"
      using that by (rule mset_eq_length)
    moreover have "mset (map (\<lambda>c. (rank c, suit c)) ys) = mset (map (\<lambda>c. (rank c, suit c)) cat)"
      using that by simp
    then have "distinct (map (\<lambda>c. (rank c, suit c)) ys) = distinct (map (\<lambda>c. (rank c, suit c)) cat)"
      by (rule mset_eq_imp_distinct_iff)
    ultimately show ?thesis
      by (simp add: cat length_catalog distinct_catalog)
  qed
  from 1 2 c1 c2 k perm [OF 1(3)] perm [OF 2(3)] show ?thesis
    by blast
qed

theorem Deck_new_permutation_witness:
  "module_heap = Inr [rank_major_catalog]
   \<and> DECK_CARDS = Inr rank_major_catalog
   \<and> lookup [rank_major_catalog] DECK_CARDS_ref = Some rank_major_catalog
   \<and> (\<exists>d1 h1 g1 ys1 d2 h2 g2 ys2.
        Deck_new [rank_major_catalog] (\<lambda>i. 7 * i + 3) = Some (d1, h1, g1)
      \<and> lookup h1 (Deck_cards d1) = Some ys1 \<and> mset ys1 = mset rank_major_catalog
      \<and> lookup h1 DECK_CARDS_ref = Some rank_major_catalog
      \<and> Deck_new h1 g1 = Some (d2, h2, g2)
      \<and> lookup h2 (Deck_cards d2) = Some ys2 \<and> mset ys2 = mset rank_major_catalog
      \<and> lookup h2 DECK_CARDS_ref = Some rank_major_catalog
      \<and> length ys1 = 24 \<and> length ys2 = 24)"
proof -
  have a: "DECK_CARDS = Inr rank_major_catalog"
    by (rule DECK_CARDS_eq)
  have b: "lookup [rank_major_catalog] DECK_CARDS_ref = Some rank_major_catalog"
    by (simp add: lookup_def DECK_CARDS_ref_def)
  have c: "module_heap = Inr [rank_major_catalog]"
    by (simp add: module_heap_def a alloc_def)
  from Deck_new_permutation [OF a b, of "\<lambda>i. 7 * i + 3"] obtain d1 h1 g1 ys1 d2 h2 g2 ys2 where
      "Deck_new [rank_major_catalog] (\<lambda>i. 7 * i + 3) = Some (d1, h1, g1)"
      "lookup h1 (Deck_cards d1) = Some ys1" "mset ys1 = mset rank_major_catalog"
      "lookup h1 DECK_CARDS_ref = Some rank_major_catalog"
      "Deck_new h1 g1 = Some (d2, h2, g2)"
      "lookup h2 (Deck_cards d2) = Some ys2" "mset ys2 = mset rank_major_catalog"
      "lookup h2 DECK_CARDS_ref = Some rank_major_catalog"
      "length ys1 = 24" "length ys2 = 24"
    by blast
  with a b c show ?thesis
    by blast
qed

text \<open>
  One run of \<open>Deck.new\<close>, on a store whose catalog object holds four cards and with the
  draws 1, 3, 5: index 3 is exchanged with index 1, then index 2 with index 0, then
  index 1 with itself. The new deck is at address 1; the list at address 0 is as before.
\<close>

lemma Deck_new_example:
  "map_option (\<lambda>(d, h', g'). (Deck_cards d, map (map str) h', Deck_str h' d))
     (Deck_new [[\<lparr>rank = 9, suit = CLUBS, str = ''9C''\<rparr>, \<lparr>rank = 10, suit = DIAMONDS, str = ''TD''\<rparr>,
                 \<lparr>rank = 11, suit = HEARTS, str = ''JH''\<rparr>, \<lparr>rank = 12, suit = SPADES, str = ''QS''\<rparr>]]
        (\<lambda>i. 2 * i + 1))
   = Some (1, [[''9C'', ''TD'', ''JH'', ''QS''], [''JH'', ''QS'', ''9C'', ''TD'']], Some ''JH, QS, 9C, TD'')"
  by code_simp

subsection \<open>Hands from tokens\<close>

lemma comprehension_Inr: "map f xs = map Inr ys \<Longrightarrow> comprehension f xs = Inr ys"
proof (induction xs arbitrary: ys)
  case Nil
  then show ?case by simp
next
  case (Cons x xs)
  then obtain y ys' where "ys = y # ys'" "f x = Inr y" "map f xs = map Inr ys'"
    by (cases ys) auto
  with Cons.IH [of ys'] show ?case by simp
qed

lemma comprehension_Inl:
  "map f pre = map Inr ys \<Longrightarrow> f t = Inl e \<Longrightarrow> comprehension f (pre @ t # rest) = Inl e"
proof (induction pre arbitrary: ys)
  case Nil
  then show ?case by simp
next
  case (Cons x pre)
  then obtain y ys' where "ys = y # ys'" "f x = Inr y" "map f pre = map Inr ys'"
    by (cases ys) auto
  with Cons.IH [of ys'] Cons.prems(2) show ?case by simp
qed

lemma comprehension_Inr_iff: "comprehension f xs = Inr ys \<longleftrightarrow> map f xs = map Inr ys"
proof
  show "comprehension f xs = Inr ys \<Longrightarrow> map f xs = map Inr ys"
    by (induction xs arbitrary: ys) (auto split: sum.splits)
qed (rule comprehension_Inr)

lemma from_pair_tokens5:
  "map from_pair (map PyStr [''9C'', ''TD'', ''JH'', ''QS'', ''KC'']) =
   map Inr [\<lparr>rank = 9, suit = CLUBS, str = ''9C''\<rparr>, \<lparr>rank = 10, suit = DIAMONDS, str = ''TD''\<rparr>,
            \<lparr>rank = 11, suit = HEARTS, str = ''JH''\<rparr>, \<lparr>rank = 12, suit = SPADES, str = ''QS''\<rparr>,
            \<lparr>rank = 13, suit = CLUBS, str = ''KC''\<rparr>]"
  by (simp add: from_pair_def Card_init_def RANKS_eq SUITS_eq)

text \<open>
  Claim C8: \<open>Hand.from_str\<close> passes the tokens through \<open>Card.from_pair\<close> in order. When
  every token gives a card, the hand holds these cards in input order (in a new list
  object; the store is otherwise unchanged). When the tokens before \<open>t\<close> give cards and
  \<open>t\<close> fails, the call fails with the condition of \<open>t\<close>, whatever follows, and returns
  no hand. The tokens 9C, TD, JH, QS, KC give a hand whose text is "9C, TD, JH, QS, KC".
\<close>

theorem Hand_from_str_fail_fast:
  "(map from_pair toks = map Inr cs \<longrightarrow>
      Hand_from_str h toks = Inr (Hand_init (length h), h @ [cs])
      \<and> lookup (h @ [cs]) (Hand_cards (Hand_init (length h))) = Some cs)
   \<and> (map from_pair pre = map Inr cs \<and> from_pair t = Inl e \<longrightarrow>
      Hand_from_str h (pre @ t # rest) = Inl e)
   \<and> (\<exists>hand h'. Hand_from_str h (map PyStr [''9C'', ''TD'', ''JH'', ''QS'', ''KC'']) = Inr (hand, h')
        \<and> Hand_str h' hand = Some ''9C, TD, JH, QS, KC'')"
proof -
  have a: "Hand_from_str h toks = Inr (Hand_init (length h), h @ [cs])
      \<and> lookup (h @ [cs]) (Hand_cards (Hand_init (length h))) = Some cs"
    if "map from_pair toks = map Inr cs" for toks cs
    using comprehension_Inr [OF that]
    by (simp add: Hand_from_str_def alloc_def lookup_def Hand_init_def)
  have b: "Hand_from_str h (pre @ t # rest) = Inl e"
    if "map from_pair pre = map Inr cs" "from_pair t = Inl e"
    using comprehension_Inl [OF that] by (simp add: Hand_from_str_def)
  have c: "\<exists>hand h'. Hand_from_str h (map PyStr [''9C'', ''TD'', ''JH'', ''QS'', ''KC'']) = Inr (hand, h')
        \<and> Hand_str h' hand = Some ''9C, TD, JH, QS, KC''"
    using a [OF from_pair_tokens5] by (simp add: Hand_str_def)
  from a b c show ?thesis by blast
qed

theorem Hand_from_str_fail_fast_witness:
  "map from_pair [PyStr ''AS'', PyTuple [''9'', ''D'']] =
     map Inr [\<lparr>rank = 14, suit = SPADES, str = ''AS''\<rparr>, \<lparr>rank = 9, suit = DIAMONDS, str = ''9D''\<rparr>]
   \<and> Hand_from_str [] [PyStr ''AS'', PyTuple [''9'', ''D'']] =
       Inr (Hand_init 0, [[\<lparr>rank = 14, suit = SPADES, str = ''AS''\<rparr>, \<lparr>rank = 9, suit = DIAMONDS, str = ''9D''\<rparr>]])
   \<and> from_pair (PyStr ''JHx'') = Inl (ValueError ''Expects card to be two items; got 3'')
   \<and> Hand_from_str [] [PyStr ''AS'', PyTuple [''9'', ''D''], PyStr ''JHx'', PyStr ''QZ'', PyStr ''KC''] =
       Inl (ValueError ''Expects card to be two items; got 3'')"
proof -
  have a: "map from_pair [PyStr ''AS'', PyTuple [''9'', ''D'']] =
     map Inr [\<lparr>rank = 14, suit = SPADES, str = ''AS''\<rparr>, \<lparr>rank = 9, suit = DIAMONDS, str = ''9D''\<rparr>]"
    by (simp add: from_pair_def Card_init_def RANKS_eq SUITS_eq)
  have b: "from_pair (PyStr ''JHx'') = Inl (ValueError ''Expects card to be two items; got 3'')"
    by (simp add: from_pair_def str_of_nat.simps)
  note t = Hand_from_str_fail_fast [of "[PyStr ''AS'', PyTuple [''9'', ''D'']]"
      "[\<lparr>rank = 14, suit = SPADES, str = ''AS''\<rparr>, \<lparr>rank = 9, suit = DIAMONDS, str = ''9D''\<rparr>]" "[]"
      "[PyStr ''AS'', PyTuple [''9'', ''D'']]" "PyStr ''JHx''"
      "ValueError ''Expects card to be two items; got 3''" "[PyStr ''QZ'', PyStr ''KC'']"]
  from t a have "Hand_from_str [] [PyStr ''AS'', PyTuple [''9'', ''D'']] =
       Inr (Hand_init 0, [[\<lparr>rank = 14, suit = SPADES, str = ''AS''\<rparr>, \<lparr>rank = 9, suit = DIAMONDS, str = ''9D''\<rparr>]])"
    by simp
  moreover from t a b
  have "Hand_from_str [] [PyStr ''AS'', PyTuple [''9'', ''D''], PyStr ''JHx'', PyStr ''QZ'', PyStr ''KC''] =
       Inl (ValueError ''Expects card to be two items; got 3'')"
    by simp
  ultimately show ?thesis
    using a b by blast
qed

subsection \<open>Decks from explicit cards\<close>

text \<open>
  Claim C9: a deck built from a card sequence keeps the very list it was given (the same
  reference, so the same cards in the same order, unvalidated), and its text is the
  texts of the cards in sequence order, joined by a comma and a space.
\<close>

theorem Deck_init_verbatim:
  "Deck_cards (Deck_init a) = a
   \<and> (lookup h a = Some cs \<longrightarrow>
        lookup h (Deck_cards (Deck_init a)) = Some cs
        \<and> Deck_str h (Deck_init a) = Some (join '', '' (map str cs)))"
  by (simp add: Deck_init_def Deck_str_def)

theorem Deck_init_verbatim_witness:
  "lookup [[], [\<lparr>rank = 9, suit = SPADES, str = ''9S''\<rparr>, \<lparr>rank = 9, suit = SPADES, str = ''9S''\<rparr>,
                \<lparr>rank = 13, suit = HEARTS, str = ''KH''\<rparr>]] 1 =
     Some [\<lparr>rank = 9, suit = SPADES, str = ''9S''\<rparr>, \<lparr>rank = 9, suit = SPADES, str = ''9S''\<rparr>,
           \<lparr>rank = 13, suit = HEARTS, str = ''KH''\<rparr>]
   \<and> Deck_str [[], [\<lparr>rank = 9, suit = SPADES, str = ''9S''\<rparr>, \<lparr>rank = 9, suit = SPADES, str = ''9S''\<rparr>,
                \<lparr>rank = 13, suit = HEARTS, str = ''KH''\<rparr>]] (Deck_init 1) = Some ''9S, 9S, KH''"
proof -
  have a: "lookup [[], [\<lparr>rank = 9, suit = SPADES, str = ''9S''\<rparr>, \<lparr>rank = 9, suit = SPADES, str = ''9S''\<rparr>,
                \<lparr>rank = 13, suit = HEARTS, str = ''KH''\<rparr>]] 1 =
     Some [\<lparr>rank = 9, suit = SPADES, str = ''9S''\<rparr>, \<lparr>rank = 9, suit = SPADES, str = ''9S''\<rparr>,
           \<lparr>rank = 13, suit = HEARTS, str = ''KH''\<rparr>]"
    by (simp add: lookup_def)
  from a Deck_init_verbatim [of 1 "[[], [\<lparr>rank = 9, suit = SPADES, str = ''9S''\<rparr>, \<lparr>rank = 9, suit = SPADES, str = ''9S''\<rparr>,
                \<lparr>rank = 13, suit = HEARTS, str = ''KH''\<rparr>]]"] show ?thesis
    by simp
qed

subsection \<open>Empty inputs\<close>

text \<open>
  Claim C10: on an empty input the collection constructors succeed:
  \<open>Hand.from_str\<close> of no tokens gives a hand with zero cards whose text is the empty
  string, and a deck built from the empty list has the empty string as its text.
\<close>

theorem empty_collections:
  "Hand_from_str h [] = Inr (Hand_init (length h), h @ [[]])
   \<and> lookup (h @ [[]]) (Hand_cards (Hand_init (length h))) = Some []
   \<and> Hand_str (h @ [[]]) (Hand_init (length h)) = Some ''''
   \<and> (lookup h a = Some [] \<longrightarrow> Deck_str h (Deck_init a) = Some '''')"
  by (simp add: Hand_from_str_def alloc_def Hand_init_def Hand_str_def lookup_def Deck_str_def Deck_init_def)

theorem empty_collections_witness:
  "lookup [rank_major_catalog, []] 1 = Some []
   \<and> Deck_str [rank_major_catalog, []] (Deck_init 1) = Some ''''
   \<and> Hand_from_str [rank_major_catalog] [] = Inr (Hand_init 1, [rank_major_catalog, []])"
proof -
  have a: "lookup [rank_major_catalog, []] 1 = Some []"
    by (simp add: lookup_def)
  from a empty_collections [of "[rank_major_catalog, []]" 1] 
  have "Deck_str [rank_major_catalog, []] (Deck_init 1) = Some ''''" by simp
  moreover from empty_collections [of "[rank_major_catalog]"]
  have "Hand_from_str [rank_major_catalog] [] = Inr (Hand_init 1, [rank_major_catalog, []])"
    by simp
  ultimately show ?thesis using a by blast
qed

end
